theory Spec2Isabelle
  imports Main
begin

unbundle bit_operations_syntax

section \<open>Values, errors and mappers of \<open>qualtrics_data_compiler.py\<close>\<close>

text \<open>
  A cell of the data frame is a Python object. The script distinguishes strings and
  floats (\<open>type(value) == float\<close>); a column that was remapped holds Python ints.
  Of a float only \<open>isnan\<close> is ever observed: a float is NaN, an infinity (the flag is
  the sign) or a finite number \<open>m * 2 ^ e\<close>.
\<close>

datatype pyfloat = NaN | Inf bool | Finite int int

datatype py_value = PStr string | PFloat pyfloat | PInt int

fun isnan :: "pyfloat \<Rightarrow> bool" where
  "isnan NaN = True"
| "isnan (Inf _) = False"
| "isnan (Finite _ _) = False"

text \<open>
  The exceptions the modelled code can raise. \<open>KeyError\<close> carries the key that was
  looked up (\<open>mapper[value]\<close> with \<open>value\<close> not a key); \<open>ValueError\<close> is the negative
  shift count of \<open>1 << n\<close>; \<open>AttributeError\<close> is \<open>values.split\<close> on an object that is
  not a string; \<open>LabelError\<close> is the \<open>KeyError\<close> pandas raises for column labels that
  are not in the frame; \<open>DownloadFailed\<close> is the \<open>raise\<close> of \<open>download_data\<close>.
\<close>

datatype error =
    KeyError py_value
  | ValueError
  | AttributeError
  | LabelError "string list"
  | DownloadFailed

text \<open>
  \<open>StringToInt = Union[Mapping[str, int], Callable[[str], int]]\<close>: a dict with string
  keys, or a function that returns an int or raises.
\<close>

datatype string_to_int =
    Mapping "string \<rightharpoonup> int"
  | Callable "py_value \<Rightarrow> error + int"

text \<open>\<open>mapper[value]\<close> on a dict whose keys are strings: only a string can be a key.\<close>

fun getitem :: "(string \<rightharpoonup> int) \<Rightarrow> py_value \<Rightarrow> error + int" where
  "getitem d (PStr s) = (case d s of None \<Rightarrow> Inl (KeyError (PStr s)) | Some k \<Rightarrow> Inr k)"
| "getitem d v = Inl (KeyError v)"

text \<open>
  \<^verbatim>\<open>
  def remap_to_int(value, mapper, nan = -1):
      if type(value) == float and isnan(value):
          return nan
      elif callable(mapper):
          return mapper(value)
      else:
          return mapper[value]
  \<close>
  The default of \<open>nan\<close> is written out by the callers.
\<close>

fun is_missing :: "py_value \<Rightarrow> bool" where
  "is_missing (PFloat f) = isnan f"
| "is_missing _ = False"

definition remap_to_int :: "py_value \<Rightarrow> string_to_int \<Rightarrow> int \<Rightarrow> error + int" where
  "remap_to_int value mapper nan =
     (if is_missing value then Inr nan
      else case mapper of
        Callable f \<Rightarrow> f value
      | Mapping d \<Rightarrow> getitem d value)"

definition yes_no :: "string \<rightharpoonup> int" where
  "yes_no = [''Yes'' \<mapsto> 1, ''No'' \<mapsto> 0]"

definition remap_yes_no :: "py_value \<Rightarrow> error + int" where
  "remap_yes_no value = remap_to_int value (Mapping yes_no) (- 1)"

section \<open>The bit field of a comma separated list\<close>

text \<open>
  \<open>values.split(',')\<close>: the string is scanned once; \<open>tok\<close> is the token read so far.
  The empty string gives one empty token.
\<close>

fun split_from :: "char \<Rightarrow> string \<Rightarrow> string \<Rightarrow> string list" where
  "split_from sep tok [] = [tok]"
| "split_from sep tok (c # cs) =
     (if c = sep then tok # split_from sep [] cs else split_from sep (tok @ [c]) cs)"

definition str_split :: "string \<Rightarrow> char \<Rightarrow> string list" where
  "str_split values sep = split_from sep [] values"

text \<open>
  The lambda of \<open>remap_list\<close>:
  \<open>index_mapper(value) if callable(index_mapper) else index_mapper[value]\<close>.
\<close>

definition index_of :: "string_to_int \<Rightarrow> string \<Rightarrow> error + int" where
  "index_of index_mapper value =
     (case index_mapper of
        Callable f \<Rightarrow> f (PStr value)
      | Mapping d \<Rightarrow> getitem d (PStr value))"

text \<open>
  \<^verbatim>\<open>
  result = 0
  for value in values.split(','):
      result = result | (1 << mapper(value))
  return result
  \<close>
  Python ints are unbounded; \<open>1 << n\<close> raises \<open>ValueError\<close> for a negative \<open>n\<close>.
\<close>

fun remap_loop :: "string_to_int \<Rightarrow> int \<Rightarrow> string list \<Rightarrow> error + int" where
  "remap_loop index_mapper result [] = Inr result"
| "remap_loop index_mapper result (value # rest) =
     (case index_of index_mapper value of
        Inl e \<Rightarrow> Inl e
      | Inr n \<Rightarrow>
          if n < 0 then Inl ValueError
          else remap_loop index_mapper (result OR push_bit (nat n) 1) rest)"

definition remap_list :: "string \<Rightarrow> string_to_int \<Rightarrow> error + int" where
  "remap_list values index_mapper =
     remap_loop index_mapper 0 (str_split values CHR '','')"

section \<open>The remap of each column\<close>

definition paper_type_codes :: "string \<rightharpoonup> int" where
  "paper_type_codes = [''Research Article'' \<mapsto> 1, ''Short paper'' \<mapsto> 2, ''Poster'' \<mapsto> 3]"

definition open_methodology_codes :: "string \<rightharpoonup> int" where
  "open_methodology_codes =
     [''Public Access'' \<mapsto> 3, ''Open Access'' \<mapsto> 2, ''Available'' \<mapsto> 1, ''No'' \<mapsto> 0]"

definition open_data_codes :: "string \<rightharpoonup> int" where
  "open_data_codes = [''Yes'' \<mapsto> 2, ''Data Available on Request'' \<mapsto> 1, ''No'' \<mapsto> 0]"

definition data_documentation_codes :: "string \<rightharpoonup> int" where
  "data_documentation_codes = [''Yes'' \<mapsto> 2, ''Partial'' \<mapsto> 1, ''No'' \<mapsto> 0]"

definition open_materials_codes :: "string \<rightharpoonup> int" where
  "open_materials_codes =
     [''Full'' \<mapsto> 3, ''Partial'' \<mapsto> 2, ''On Request'' \<mapsto> 1, ''No'' \<mapsto> 0]"

definition materials_documentation_codes :: "string \<rightharpoonup> int" where
  "materials_documentation_codes = [''Full'' \<mapsto> 2, ''Partial'' \<mapsto> 1, ''No'' \<mapsto> 0]"

definition reference_degradation_bits :: "string \<rightharpoonup> int" where
  "reference_degradation_bits =
     [''Open Methodology'' \<mapsto> 0, ''Open Data'' \<mapsto> 1, ''Open Materials'' \<mapsto> 2,
      ''Preregistration'' \<mapsto> 3]"

text \<open>
  \<open>lambda v: remap_list(values = v, index_mapper = {...})\<close>: the cell is passed as it
  is, and an object that is not a string has no \<open>split\<close>.
\<close>

fun reference_degradation_list :: "py_value \<Rightarrow> error + int" where
  "reference_degradation_list (PStr s) = remap_list s (Mapping reference_degradation_bits)"
| "reference_degradation_list _ = Inl AttributeError"

definition remap_reference_degradation :: "py_value \<Rightarrow> error + int" where
  "remap_reference_degradation values =
     remap_to_int values (Callable reference_degradation_list) 0"

text \<open>
  The twelve assignments \<open>data[c] = data[c].map(...)\<close> of the script, in its order:
  the label and the function applied to every cell.
\<close>

definition column_remaps :: "(string \<times> (py_value \<Rightarrow> error + int)) list" where
  "column_remaps =
     [(''paper_type'', \<lambda>value. remap_to_int value (Mapping paper_type_codes) (- 1)),
      (''acm_misclassified'', remap_yes_no),
      (''open_methodology'', \<lambda>value. remap_to_int value (Mapping open_methodology_codes) (- 1)),
      (''open_data'', \<lambda>value. remap_to_int value (Mapping open_data_codes) (- 1)),
      (''data_documentation'', \<lambda>value. remap_to_int value (Mapping data_documentation_codes) (- 1)),
      (''open_materials'', \<lambda>value. remap_to_int value (Mapping open_materials_codes) (- 1)),
      (''materials_documentation'',
         \<lambda>value. remap_to_int value (Mapping materials_documentation_codes) (- 1)),
      (''readme'', remap_yes_no),
      (''permissible_software_license'', remap_yes_no),
      (''preregistration'', remap_yes_no),
      (''reproducible'', remap_yes_no),
      (''reference_degradation'', remap_reference_degradation)]"

section \<open>The frame and its transformation\<close>

text \<open>
  The pandas frame as the script uses it: the name of the index, the index (the DOIs)
  and the labelled columns in their order. \<open>read_csv\<close> with
  \<open>index_col = 'Paper DOI Link'\<close> gives a frame whose index has that name.
\<close>

record data_frame =
  index_name :: "string option"
  index :: "py_value list"
  columns :: "(string \<times> py_value list) list"

text \<open>\<open>data.rename(columns = {...})\<close>: a label that is a key is replaced, any other is kept.\<close>

definition renames :: "string \<rightharpoonup> string" where
  "renames =
     [''Open Data'' \<mapsto> ''open_data'',
      ''Open Materials'' \<mapsto> ''open_materials'',
      ''Conference Proceedings'' \<mapsto> ''conference_proceedings'',
      ''Type'' \<mapsto> ''paper_type'',
      ''Misclassified'' \<mapsto> ''acm_misclassified'',
      ''Open Methodology'' \<mapsto> ''open_methodology'',
      ''Data Documentation'' \<mapsto> ''data_documentation'',
      ''Materials Documentation'' \<mapsto> ''materials_documentation'',
      ''README'' \<mapsto> ''readme'',
      ''License'' \<mapsto> ''permissible_software_license'',
      ''Preregistration'' \<mapsto> ''preregistration'',
      ''Reproducible'' \<mapsto> ''reproducible'',
      ''Reference Degradation'' \<mapsto> ''reference_degradation'']"

definition rename_columns ::
  "(string \<rightharpoonup> string) \<Rightarrow> (string \<times> 'a) list \<Rightarrow> (string \<times> 'a) list" where
  "rename_columns names cols =
     map (\<lambda>(label, cells). (case names label of None \<Rightarrow> label | Some new \<Rightarrow> new, cells)) cols"

definition target_columns :: "string list" where
  "target_columns =
     [''conference_proceedings'', ''paper_type'', ''acm_misclassified'', ''open_methodology'',
      ''open_data'', ''data_documentation'', ''open_materials'', ''materials_documentation'',
      ''readme'', ''permissible_software_license'', ''preregistration'', ''reproducible'',
      ''reference_degradation'']"

text \<open>
  \<open>data[[...]]\<close>: the columns carrying the listed labels, in the order of the list; pandas
  raises when a label is not in the frame. A label that several columns carry selects
  all of them.
\<close>

definition select_columns ::
  "string list \<Rightarrow> (string \<times> 'a) list \<Rightarrow> error + (string \<times> 'a) list" where
  "select_columns labels cols =
     (let missing = filter (\<lambda>label. label \<notin> set (map fst cols)) labels
      in if missing \<noteq> [] then Inl (LabelError missing)
         else Inr (concat (map (\<lambda>label. filter (\<lambda>c. fst c = label) cols) labels)))"

text \<open>
  \<open>Series.map(f)\<close>: \<open>f\<close> is applied to the cells from the first row on, NaN cells
  included; the first exception leaves the map.
\<close>

fun series_map :: "(py_value \<Rightarrow> error + int) \<Rightarrow> py_value list \<Rightarrow> error + py_value list" where
  "series_map f [] = Inr []"
| "series_map f (v # vs) =
     (case f v of
        Inl e \<Rightarrow> Inl e
      | Inr k \<Rightarrow>
          (case series_map f vs of
             Inl e \<Rightarrow> Inl e
           | Inr ks \<Rightarrow> Inr (PInt k # ks)))"

text \<open>
  \<open>data[label] = data[label].map(f)\<close>: the column keeps its place. The theorems below are
  about frames whose labels are distinct; where several columns carry the label, each of
  them is mapped.
\<close>

fun map_labelled ::
  "string \<Rightarrow> (py_value \<Rightarrow> error + int) \<Rightarrow> (string \<times> py_value list) list \<Rightarrow>
   error + (string \<times> py_value list) list" where
  "map_labelled label f [] = Inr []"
| "map_labelled label f ((l, cells) # rest) =
     (if l = label then
        (case series_map f cells of
           Inl e \<Rightarrow> Inl e
         | Inr cells' \<Rightarrow>
             (case map_labelled label f rest of
                Inl e \<Rightarrow> Inl e
              | Inr rest' \<Rightarrow> Inr ((l, cells') # rest')))
      else
        (case map_labelled label f rest of
           Inl e \<Rightarrow> Inl e
         | Inr rest' \<Rightarrow> Inr ((l, cells) # rest')))"

definition remap_column ::
  "string \<Rightarrow> (py_value \<Rightarrow> error + int) \<Rightarrow> (string \<times> py_value list) list \<Rightarrow>
   error + (string \<times> py_value list) list" where
  "remap_column label f cols =
     (if label \<in> set (map fst cols) then map_labelled label f cols
      else Inl (LabelError [label]))"

fun apply_remaps ::
  "(string \<times> (py_value \<Rightarrow> error + int)) list \<Rightarrow> (string \<times> py_value list) list \<Rightarrow>
   error + (string \<times> py_value list) list" where
  "apply_remaps [] cols = Inr cols"
| "apply_remaps ((label, f) # steps) cols =
     (case remap_column label f cols of
        Inl e \<Rightarrow> Inl e
      | Inr cols' \<Rightarrow> apply_remaps steps cols')"

text \<open>Lines 189 to 290 of the script: rename, name the index, select, remap.\<close>

definition transform :: "data_frame \<Rightarrow> error + data_frame" where
  "transform data =
     (case select_columns target_columns (rename_columns renames (columns data)) of
        Inl e \<Rightarrow> Inl e
      | Inr selected \<Rightarrow>
          (case apply_remaps column_remaps selected of
             Inl e \<Rightarrow> Inl e
           | Inr remapped \<Rightarrow> Inr (data\<lparr>index_name := Some ''doi'', columns := remapped\<rparr>)))"

section \<open>Writing the result\<close>

text \<open>
  The files of the machine, by path. A file holds bytes that were downloaded, or the
  frame that \<open>to_csv\<close> wrote (the text of the CSV is the library's). The remote side is
  a partial map from URLs to contents: \<open>None\<close> is a request that fails.
\<close>

datatype file_content = Bytes string | Csv data_frame

type_synonym files = "string \<rightharpoonup> file_content"

datatype outcome = Raised error | Exited int

definition OUTPUT_PATH :: string where
  "OUTPUT_PATH = ''./data''"

definition COMPILED_DATA_PATH :: string where
  "COMPILED_DATA_PATH = OUTPUT_PATH @ ''/compiled-survey-data.csv''"

text \<open>
  \<open>download_data(path, remote)\<close>: nothing happens when the path exists; else the content
  is fetched and written, or the function raises. What it prints is not modelled.
\<close>

definition download_data ::
  "(string \<rightharpoonup> string) \<Rightarrow> string \<Rightarrow> string \<Rightarrow> files \<Rightarrow> (error + unit) \<times> files" where
  "download_data web path remote fs =
     (if path \<in> dom fs then (Inr (), fs)
      else case web remote of
        None \<Rightarrow> (Inl DownloadFailed, fs)
      | Some content \<Rightarrow> (Inr (), fs(path \<mapsto> Bytes content)))"

fun download_each ::
  "(string \<rightharpoonup> string) \<Rightarrow> (string \<times> string) list \<Rightarrow> files \<Rightarrow> (error + unit) \<times> files" where
  "download_each web [] fs = (Inr (), fs)"
| "download_each web ((path, remote) # rest) fs =
     (case download_data web path remote fs of
        (Inl e, fs') \<Rightarrow> (Inl e, fs')
      | (Inr _, fs') \<Rightarrow> download_each web rest fs')"

definition supplemental_documents :: "(string \<times> string) list" where
  "supplemental_documents =
     [(OUTPUT_PATH @ ''/CONTENT-LICENSE'', ''https://osf.io/download/4xhm9/''),
      (OUTPUT_PATH @ ''/dataset-description.pdf'', ''https://osf.io/download/bgwp3/''),
      (OUTPUT_PATH @ ''/explanations.pdf'', ''https://osf.io/download/xav7z/'')]"

text \<open>
  The script from the loaded frame on (lines 189 to 303): the transformation, the
  supplemental documents when \<open>docs\<close> is set, \<open>to_csv\<close>, and \<open>sys.exit(1)\<close>. An
  exception ends the run where it is raised.
\<close>

definition compile_and_export ::
  "bool \<Rightarrow> (string \<rightharpoonup> string) \<Rightarrow> data_frame \<Rightarrow> files \<Rightarrow> outcome \<times> files" where
  "compile_and_export docs web data fs =
     (case transform data of
        Inl e \<Rightarrow> (Raised e, fs)
      | Inr compiled \<Rightarrow>
          (case (if docs then download_each web supplemental_documents fs else (Inr (), fs)) of
             (Inl e, fs') \<Rightarrow> (Raised e, fs')
           | (Inr _, fs') \<Rightarrow> (Exited 1, fs'(COMPILED_DATA_PATH \<mapsto> Csv compiled))))"

section \<open>What the specification says\<close>

text \<open>
  The vocabulary of each remapped column as the table of the specification gives it
  (string to integer); for \<open>reference_degradation\<close> the table names a bit, and the
  integer is the one with that bit set.
\<close>

definition spec_vocabulary :: "(string \<times> (string \<rightharpoonup> int)) list" where
  "spec_vocabulary =
     [(''paper_type'', [''Research Article'' \<mapsto> 1, ''Short paper'' \<mapsto> 2, ''Poster'' \<mapsto> 3]),
      (''acm_misclassified'', [''Yes'' \<mapsto> 1, ''No'' \<mapsto> 0]),
      (''open_methodology'',
         [''Public Access'' \<mapsto> 3, ''Open Access'' \<mapsto> 2, ''Available'' \<mapsto> 1, ''No'' \<mapsto> 0]),
      (''open_data'', [''Yes'' \<mapsto> 2, ''Data Available on Request'' \<mapsto> 1, ''No'' \<mapsto> 0]),
      (''data_documentation'', [''Yes'' \<mapsto> 2, ''Partial'' \<mapsto> 1, ''No'' \<mapsto> 0]),
      (''open_materials'',
         [''Full'' \<mapsto> 3, ''Partial'' \<mapsto> 2, ''On Request'' \<mapsto> 1, ''No'' \<mapsto> 0]),
      (''materials_documentation'', [''Full'' \<mapsto> 2, ''Partial'' \<mapsto> 1, ''No'' \<mapsto> 0]),
      (''readme'', [''Yes'' \<mapsto> 1, ''No'' \<mapsto> 0]),
      (''permissible_software_license'', [''Yes'' \<mapsto> 1, ''No'' \<mapsto> 0]),
      (''preregistration'', [''Yes'' \<mapsto> 1, ''No'' \<mapsto> 0]),
      (''reproducible'', [''Yes'' \<mapsto> 1, ''No'' \<mapsto> 0]),
      (''reference_degradation'',
         [''Open Methodology'' \<mapsto> 1, ''Open Data'' \<mapsto> 2, ''Open Materials'' \<mapsto> 4,
          ''Preregistration'' \<mapsto> 8])]"

text \<open>The tokens of a list, joined by the separator: what \<open>split\<close> takes apart.\<close>

fun str_join :: "char \<Rightarrow> string list \<Rightarrow> string" where
  "str_join sep [] = []"
| "str_join sep [tok] = tok"
| "str_join sep (tok # toks) = tok @ sep # str_join sep toks"

section \<open>Relations between a frame and its remapped frame\<close>

text \<open>
  \<open>mapped_at label f c c'\<close>: the column \<open>c'\<close> is the column \<open>c\<close> after
  \<open>data[label] = data[label].map(f)\<close>: every cell of a column with that label became the
  int that \<open>f\<close> returns for it, and any other column is as it was.
\<close>

definition mapped_at ::
  "string \<Rightarrow> (py_value \<Rightarrow> error + int) \<Rightarrow> string \<times> py_value list \<Rightarrow> string \<times> py_value list \<Rightarrow> bool" where
  "mapped_at label f c c' \<longleftrightarrow>
     fst c' = fst c \<and>
     (if fst c = label
      then list_all2 (\<lambda>v v'. \<exists>k. f v = Inr k \<and> v' = PInt k) (snd c) (snd c')
      else snd c' = snd c)"

text \<open>The same for a list of such assignments with distinct labels.\<close>

definition remapped_by ::
  "(string \<times> (py_value \<Rightarrow> error + int)) list \<Rightarrow> string \<times> py_value list \<Rightarrow> string \<times> py_value list \<Rightarrow> bool" where
  "remapped_by steps c c' \<longleftrightarrow>
     fst c' = fst c \<and>
     (case map_of steps (fst c) of
        None \<Rightarrow> snd c' = snd c
      | Some f \<Rightarrow> list_all2 (\<lambda>v v'. \<exists>k. f v = Inr k \<and> v' = PInt k) (snd c) (snd c'))"

text \<open>A frame as \<open>read_csv\<close> could give it: two papers, one column the script drops.\<close>

definition example_frame :: data_frame where
  "example_frame =
     \<lparr>index_name = Some ''Paper DOI Link'',
      index = [PStr ''10.1/a'', PStr ''10.1/b''],
      columns =
        [(''Duration'', [PInt 12, PInt 40]),
         (''Conference Proceedings'', [PStr ''EDM'', PStr ''LAK'']),
         (''Type'', [PStr ''Research Article'', PStr ''Poster'']),
         (''Misclassified'', [PStr ''Yes'', PStr ''No'']),
         (''Open Methodology'', [PStr ''Public Access'', PStr ''No'']),
         (''Open Data'', [PStr ''Yes'', PFloat NaN]),
         (''Data Documentation'', [PStr ''Partial'', PFloat NaN]),
         (''Open Materials'', [PStr ''On Request'', PStr ''No'']),
         (''Materials Documentation'', [PStr ''Full'', PFloat NaN]),
         (''README'', [PStr ''Yes'', PFloat NaN]),
         (''License'', [PStr ''No'', PFloat NaN]),
         (''Preregistration'', [PStr ''No'', PStr ''No'']),
         (''Reproducible'', [PFloat NaN, PStr ''No'']),
         (''Reference Degradation'', [PStr ''Open Data,Preregistration'', PFloat NaN])]\<rparr>"

text \<open>What the script makes of it.\<close>

definition example_output :: data_frame where
  "example_output =
     \<lparr>index_name = Some ''doi'',
      index = [PStr ''10.1/a'', PStr ''10.1/b''],
      columns =
        [(''conference_proceedings'', [PStr ''EDM'', PStr ''LAK'']),
         (''paper_type'', [PInt 1, PInt 3]),
         (''acm_misclassified'', [PInt 1, PInt 0]),
         (''open_methodology'', [PInt 3, PInt 0]),
         (''open_data'', [PInt 2, PInt (- 1)]),
         (''data_documentation'', [PInt 1, PInt (- 1)]),
         (''open_materials'', [PInt 1, PInt 0]),
         (''materials_documentation'', [PInt 2, PInt (- 1)]),
         (''readme'', [PInt 1, PInt (- 1)]),
         (''permissible_software_license'', [PInt 0, PInt (- 1)]),
         (''preregistration'', [PInt 0, PInt 0]),
         (''reproducible'', [PInt (- 1), PInt 0]),
         (''reference_degradation'', [PInt 10, PInt 0])]\<rparr>"

text \<open>The same frame with a paper type that is not in the vocabulary.\<close>

definition example_unknown :: data_frame where
  "example_unknown =
     example_frame\<lparr>columns :=
       (columns example_frame)[2 := (''Type'', [PStr ''Book'', PStr ''Poster''])]\<rparr>"

text \<open>A cell is written as an integer when it holds a Python int.\<close>

fun is_int :: "py_value \<Rightarrow> bool" where
  "is_int (PInt _) = True"
| "is_int _ = False"

definition written_as_integers :: "data_frame \<Rightarrow> bool" where
  "written_as_integers data = list_all (\<lambda>(label, cells). list_all is_int cells) (columns data)"

text \<open>
  A valid input table: after the renaming the labels are distinct, the thirteen target
  labels are among them, and every cell of a column that is remapped is resolved by the
  remap of its column (it is missing or in the vocabulary).
\<close>

definition resolves :: "(py_value \<Rightarrow> error + int) \<Rightarrow> py_value \<Rightarrow> bool" where
  "resolves f v = (case f v of Inl _ \<Rightarrow> False | Inr _ \<Rightarrow> True)"

definition resolved_by ::
  "(string \<times> (py_value \<Rightarrow> error + int)) list \<Rightarrow> string \<times> py_value list \<Rightarrow> bool" where
  "resolved_by steps c \<longleftrightarrow>
     (case map_of steps (fst c) of None \<Rightarrow> True | Some f \<Rightarrow> list_all (resolves f) (snd c))"

definition valid_input :: "data_frame \<Rightarrow> bool" where
  "valid_input data =
     (let cols = rename_columns renames (columns data)
      in distinct (map fst cols) \<and>
         list_all (\<lambda>label. label \<in> set (map fst cols)) target_columns \<and>
         list_all (\<lambda>(label, cells).
            case map_of column_remaps label of
              None \<Rightarrow> True
            | Some f \<Rightarrow> list_all (resolves f) cells) cols)"

section \<open>Splitting and the loop of \<open>remap_list\<close>\<close>

lemma split_from_nonempty: "split_from sep tok s \<noteq> []"
  by (induction s arbitrary: tok) auto

lemma remap_loop_bits:
  "\<forall>tok \<in> set toks. \<exists>n\<ge>0. index_of m tok = Inr n \<Longrightarrow>
   \<exists>k. remap_loop m acc toks = Inr k \<and>
       (\<forall>j. bit k j \<longleftrightarrow> bit acc j \<or> (\<exists>tok \<in> set toks. index_of m tok = Inr (int j)))"
proof (induction toks arbitrary: acc)
  case Nil
  then show ?case by simp
next
  case (Cons tok toks)
  then obtain n where n: "index_of m tok = Inr n" "0 \<le> n" by auto
  from Cons.prems have "\<forall>t \<in> set toks. \<exists>n\<ge>0. index_of m t = Inr n" by simp
  from Cons.IH [OF this, of "acc OR push_bit (nat n) 1"]
  obtain k where k: "remap_loop m (acc OR push_bit (nat n) 1) toks = Inr k"
    "\<And>j. bit k j \<longleftrightarrow> bit (acc OR push_bit (nat n) 1) j \<or> (\<exists>t \<in> set toks. index_of m t = Inr (int j))"
    by blast
  have b: "bit (acc OR push_bit (nat n) 1) j \<longleftrightarrow> bit acc j \<or> n = int j" for j
    using n(2) by (auto simp: bit_or_iff bit_exp_iff)
  have step: "remap_loop m acc (tok # toks) = Inr k"
    using n k(1) by simp
  have "bit k j \<longleftrightarrow> bit acc j \<or> (\<exists>t \<in> set (tok # toks). index_of m t = Inr (int j))" for j
    unfolding k(2) b using n(1) by auto
  with step show ?case by blast
qed

lemma remap_loop_negative:
  "\<forall>tok \<in> set toks. \<exists>n. index_of m tok = Inr n \<Longrightarrow>
   \<exists>tok \<in> set toks. \<exists>n<0. index_of m tok = Inr n \<Longrightarrow>
   remap_loop m acc toks = Inl ValueError"
proof (induction toks arbitrary: acc)
  case Nil
  then show ?case by simp
next
  case (Cons tok toks)
  then obtain n where n: "index_of m tok = Inr n" by auto
  show ?case
  proof (cases "n < 0")
    case True
    with n show ?thesis by simp
  next
    case False
    with n Cons.prems have "\<exists>t \<in> set toks. \<exists>n<0. index_of m t = Inr n" by auto
    moreover from Cons.prems have "\<forall>t \<in> set toks. \<exists>n. index_of m t = Inr n" by simp
    ultimately have "remap_loop m (acc OR push_bit (nat n) 1) toks = Inl ValueError"
      by (rule Cons.IH [rotated])
    with n False show ?thesis by simp
  qed
qed

lemma remap_loop_range:
  "remap_loop (Mapping reference_degradation_bits) acc toks = Inr k \<Longrightarrow>
   0 \<le> acc \<Longrightarrow> acc < 16 \<Longrightarrow> acc \<le> k \<and> k < 16"
proof (induction toks arbitrary: acc)
  case Nil
  then show ?case by simp
next
  case (Cons tok toks)
  from Cons.prems(1) obtain n where
    n: "index_of (Mapping reference_degradation_bits) tok = Inr n" "0 \<le> n"
    and r: "remap_loop (Mapping reference_degradation_bits) (acc OR push_bit (nat n) 1) toks = Inr k"
    by (auto split: sum.splits if_splits)
  from n(1) have "n \<in> {0, 1, 2, 3}"
    by (auto simp: index_of_def reference_degradation_bits_def split: if_splits)
  then have p: "push_bit (nat n) (1::int) \<in> {1, 2, 4, 8}" by auto
  then have "acc OR push_bit (nat n) 1 < 2 ^ 4"
    using Cons.prems(2,3) by (intro OR_upper) auto
  moreover have "acc \<le> acc OR push_bit (nat n) 1"
    using p by (intro or_greater_eq) auto
  ultimately show ?case
    using Cons.IH [OF r] Cons.prems(2) by auto
qed

lemma remap_list_range:
  assumes "remap_list s (Mapping reference_degradation_bits) = Inr k"
  shows "1 \<le> k \<and> k \<le> 15"
proof -
  obtain tok toks where st: "str_split s CHR '','' = tok # toks"
    using split_from_nonempty [of "CHR '',''" "[]" s]
    by (cases "str_split s CHR '',''") (auto simp: str_split_def)
  from assms st obtain n where
    n: "index_of (Mapping reference_degradation_bits) tok = Inr n" "0 \<le> n"
    and r: "remap_loop (Mapping reference_degradation_bits) (0 OR push_bit (nat n) 1) toks = Inr k"
    by (auto simp: remap_list_def split: sum.splits if_splits)
  from n(1) have "n \<in> {0, 1, 2, 3}"
    by (auto simp: index_of_def reference_degradation_bits_def split: if_splits)
  then have p: "push_bit (nat n) (1::int) \<in> {1, 2, 4, 8}" by auto
  from r have r': "remap_loop (Mapping reference_degradation_bits) (push_bit (nat n) 1) toks = Inr k"
    by simp
  from remap_loop_range [OF r'] p have "push_bit (nat n) 1 \<le> k \<and> k < 16" by auto
  with p show ?thesis by auto
qed

lemma remap_loop_resolves:
  "remap_loop m acc toks = Inr k \<Longrightarrow> \<forall>tok \<in> set toks. \<exists>n\<ge>0. index_of m tok = Inr n"
  by (induction toks arbitrary: acc) (auto split: sum.splits if_splits)

section \<open>Splitting is the inverse of joining\<close>

lemma str_join_Cons: "toks \<noteq> [] \<Longrightarrow> str_join sep (tok # toks) = tok @ sep # str_join sep toks"
  by (cases toks) auto

lemma str_join_split_from: "str_join sep (split_from sep tok s) = tok @ s"
proof (induction s arbitrary: tok)
  case Nil
  then show ?case by simp
next
  case (Cons c cs)
  show ?case
  proof (cases "c = sep")
    case True
    have "str_join sep (tok # split_from sep [] cs) = tok @ sep # str_join sep (split_from sep [] cs)"
      by (rule str_join_Cons [OF split_from_nonempty])
    with True show ?thesis
      using Cons.IH [of "[]"] by simp
  next
    case False
    then show ?thesis
      using Cons.IH [of "tok @ [c]"] by simp
  qed
qed

lemma split_from_no_sep:
  "sep \<notin> set tok \<Longrightarrow> \<forall>t \<in> set (split_from sep tok s). sep \<notin> set t"
proof (induction s arbitrary: tok)
  case Nil
  then show ?case by simp
next
  case (Cons c cs)
  have e: "\<forall>t \<in> set (split_from sep [] cs). sep \<notin> set t"
    by (rule Cons.IH) simp
  have n: "\<forall>t \<in> set (split_from sep (tok @ [c]) cs). sep \<notin> set t" if "c \<noteq> sep"
    by (rule Cons.IH) (use that Cons.prems in simp)
  from e n Cons.prems show ?case by simp
qed

lemma split_from_join:
  "\<forall>t \<in> set (tok # toks). sep \<notin> set t \<Longrightarrow>
   split_from sep pre (str_join sep (tok # toks)) = (pre @ tok) # toks"
proof (induction toks arbitrary: tok pre)
  case Nil
  have "split_from sep pre tok = [pre @ tok]" if "sep \<notin> set tok" for tok pre
    using that by (induction tok arbitrary: pre) auto
  with Nil show ?case by simp
next
  case (Cons u toks)
  have "split_from sep pre (tok @ sep # rest) = (pre @ tok) # split_from sep [] rest"
    if "sep \<notin> set tok" for tok pre rest
    using that by (induction tok arbitrary: pre) auto
  with Cons show ?case by simp
qed

section \<open>Remapping and selecting columns\<close>

lemma series_map_Inr:
  "series_map f cells = Inr cells' \<Longrightarrow>
   list_all2 (\<lambda>v v'. \<exists>k. f v = Inr k \<and> v' = PInt k) cells cells'"
  by (induction cells arbitrary: cells') (auto split: sum.splits)

lemma map_labelled_Inr:
  "map_labelled label f cols = Inr cols' \<Longrightarrow> list_all2 (mapped_at label f) cols cols'"
proof (induction cols arbitrary: cols')
  case Nil
  then show ?case by simp
next
  case (Cons c cols)
  obtain l cells where c: "c = (l, cells)" by (cases c)
  from Cons.prems obtain c' rest' where
    cols': "cols' = c' # rest'" and rest: "map_labelled label f cols = Inr rest'"
    and c': "if l = label then \<exists>cells'. series_map f cells = Inr cells' \<and> c' = (l, cells')
             else c' = c"
    unfolding c by (auto split: if_splits sum.splits)
  from c' have "mapped_at label f c c'"
    unfolding c by (auto simp: mapped_at_def dest: series_map_Inr split: if_splits)
  with Cons.IH [OF rest] cols' show ?case by simp
qed

lemma apply_remaps_Inr:
  "apply_remaps steps cols = Inr cols' \<Longrightarrow> distinct (map fst steps) \<Longrightarrow>
   list_all2 (remapped_by steps) cols cols'"
proof (induction steps arbitrary: cols)
  case Nil
  then show ?case by (simp add: remapped_by_def list_all2_same)
next
  case (Cons step steps)
  obtain label f where step: "step = (label, f)" by (cases step)
  from Cons.prems(1) obtain cols1 where
    c1: "map_labelled label f cols = Inr cols1" and r: "apply_remaps steps cols1 = Inr cols'"
    unfolding step by (auto simp: remap_column_def split: sum.splits if_splits)
  from Cons.prems(2) have d: "distinct (map fst steps)" and n: "map_of steps label = None"
    unfolding step by (auto simp: map_of_eq_None_iff)
  note a = map_labelled_Inr [OF c1]
  note b = Cons.IH [OF r d]
  show ?case
  proof (rule list_all2_trans [OF _ a b])
    fix c c1 c'
    assume h1: "mapped_at label f c c1"
      and h2: "remapped_by steps c1 c'"
    show "remapped_by (step # steps) c c'"
    proof (cases "fst c = label")
      case True
      with h1 h2 n show ?thesis
        unfolding step by (simp add: remapped_by_def mapped_at_def)
    next
      case False
      with h1 h2 show ?thesis
        unfolding step by (auto simp: remapped_by_def mapped_at_def split: option.splits)
    qed
  qed
qed

lemma filter_label_single:
  "distinct (map fst cols) \<Longrightarrow> label \<in> set (map fst cols) \<Longrightarrow>
   map fst (filter (\<lambda>c. fst c = label) cols) = [label]"
proof (induction cols)
  case Nil
  then show ?case by simp
next
  case (Cons c cols)
  show ?case
  proof (cases "fst c = label")
    case True
    with Cons.prems(1) have "label \<notin> fst ` set cols" by auto
    then have "filter (\<lambda>c. fst c = label) cols = []"
      unfolding filter_empty_conv by force
    with True show ?thesis by simp
  next
    case False
    with Cons show ?thesis by auto
  qed
qed

lemma select_columns_labels:
  assumes "select_columns labels cols = Inr sel" and "distinct (map fst cols)"
  shows "map fst sel = labels"
proof -
  from assms(1) have all: "\<forall>label \<in> set labels. label \<in> set (map fst cols)"
    and sel: "sel = concat (map (\<lambda>label. filter (\<lambda>c. fst c = label) cols) labels)"
    by (auto simp: select_columns_def Let_def filter_empty_conv split: if_splits)
  have "set ls \<subseteq> set (map fst cols) \<Longrightarrow>
        map fst (concat (map (\<lambda>label. filter (\<lambda>c. fst c = label) cols) ls)) = ls" for ls
    by (induction ls) (simp_all add: filter_label_single [OF assms(2)])
  with all sel show ?thesis by auto
qed

lemma select_columns_set:
  assumes "select_columns labels cols = Inr sel"
  shows "set sel = {c \<in> set cols. fst c \<in> set labels}"
  using assms by (auto simp: select_columns_def Let_def split: if_splits)

section \<open>The result depends on the set of tokens\<close>

lemma remap_list_tokens_set:
  assumes "set (str_split s CHR '','') = set (str_split s' CHR '','')"
    and "\<forall>tok \<in> set (str_split s CHR '',''). \<exists>n. index_of m tok = Inr n"
  shows "remap_list s m = remap_list s' m"
proof (cases "\<exists>tok \<in> set (str_split s CHR '',''). \<exists>n<0. index_of m tok = Inr n")
  case True
  then show ?thesis
    using assms by (simp add: remap_list_def remap_loop_negative)
next
  case False
  with assms(2) have pos: "\<forall>tok \<in> set (str_split s CHR '',''). \<exists>n\<ge>0. index_of m tok = Inr n"
    by (metis not_less)
  with assms(1) have pos': "\<forall>tok \<in> set (str_split s' CHR '',''). \<exists>n\<ge>0. index_of m tok = Inr n"
    by simp
  from remap_loop_bits [OF pos, of 0] obtain k where
    k: "remap_list s m = Inr k"
       "\<And>j. bit k j \<longleftrightarrow> (\<exists>tok \<in> set (str_split s CHR '',''). index_of m tok = Inr (int j))"
    by (auto simp: remap_list_def)
  from remap_loop_bits [OF pos', of 0] obtain k' where
    k': "remap_list s' m = Inr k'"
       "\<And>j. bit k' j \<longleftrightarrow> (\<exists>tok \<in> set (str_split s' CHR '',''). index_of m tok = Inr (int j))"
    by (auto simp: remap_list_def)
  have "k = k'"
    by (rule bit_eqI) (simp add: k(2) k'(2) assms(1))
  with k(1) k'(1) show ?thesis by simp
qed

lemma str_split_join:
  assumes "toks \<noteq> []" and "\<forall>tok \<in> set toks. sep \<notin> set tok"
  shows "str_split (str_join sep toks) sep = toks"
proof -
  from assms(1) obtain tok rest where t: "toks = tok # rest" by (cases toks) auto
  with assms(2) show ?thesis
    unfolding t str_split_def using split_from_join [of tok rest sep "[]"] by simp
qed

section \<open>The transformed frame\<close>

lemma list_all2_right_member:
  "list_all2 P xs ys \<Longrightarrow> y \<in> set ys \<Longrightarrow> \<exists>x \<in> set xs. P x y"
  by (induction rule: list_all2_induct) auto

lemma list_all2_left_member:
  "list_all2 P xs ys \<Longrightarrow> x \<in> set xs \<Longrightarrow> \<exists>y \<in> set ys. P x y"
  by (induction rule: list_all2_induct) auto

lemma remapped_by_labels:
  "list_all2 (remapped_by steps) cols cols' \<Longrightarrow> map fst cols' = map fst cols"
  by (induction rule: list_all2_induct) (simp_all add: remapped_by_def)

lemma distinct_column_remaps: "distinct (map fst column_remaps)"
  by (simp add: column_remaps_def)

lemma target_columns_remapped:
  "set target_columns = insert ''conference_proceedings'' (fst ` set column_remaps)"
  by (simp add: target_columns_def column_remaps_def)

lemma conference_proceedings_not_remapped:
  "map_of column_remaps ''conference_proceedings'' = None"
  by (simp add: column_remaps_def)

lemma download_data_other:
  "download_data web path remote fs = (r, fs') \<Longrightarrow> p \<noteq> path \<Longrightarrow> fs' p = fs p"
  by (auto simp: download_data_def split: if_splits option.splits)

lemma download_each_other:
  "download_each web docs fs = (r, fs') \<Longrightarrow> p \<notin> fst ` set docs \<Longrightarrow> fs' p = fs p"
proof (induction docs arbitrary: fs)
  case Nil
  then show ?case by simp
next
  case (Cons doc docs)
  obtain path remote where doc: "doc = (path, remote)" by (cases doc)
  obtain r1 fs1 where d: "download_data web path remote fs = (r1, fs1)"
    by (cases "download_data web path remote fs")
  from Cons.prems(2) have p: "p \<noteq> path" "p \<notin> fst ` set docs"
    unfolding doc by auto
  from download_data_other [OF d p(1)] have 1: "fs1 p = fs p" .
  show ?case
  proof (cases r1)
    case (Inl e)
    with Cons.prems(1) d 1 show ?thesis unfolding doc by simp
  next
    case (Inr u)
    with Cons.prems(1) d have "download_each web docs fs1 = (r, fs')"
      unfolding doc by simp
    from Cons.IH [OF this p(2)] 1 show ?thesis by simp
  qed
qed

lemma compiled_path_not_supplemental:
  "COMPILED_DATA_PATH \<notin> fst ` set supplemental_documents"
  by (simp add: COMPILED_DATA_PATH_def supplemental_documents_def OUTPUT_PATH_def)

lemma transform_Inr:
  assumes "transform data = Inr out"
  obtains selected where
    "select_columns target_columns (rename_columns renames (columns data)) = Inr selected"
    "list_all2 (remapped_by column_remaps) selected (columns out)"
    "index_name out = Some ''doi''" "index out = index data"
proof -
  from assms obtain selected remapped where
    s: "select_columns target_columns (rename_columns renames (columns data)) = Inr selected"
    and r: "apply_remaps column_remaps selected = Inr remapped"
    and o: "out = data\<lparr>index_name := Some ''doi'', columns := remapped\<rparr>"
    by (auto simp: transform_def split: sum.splits)
  from apply_remaps_Inr [OF r distinct_column_remaps] o
  have "list_all2 (remapped_by column_remaps) selected (columns out)" by simp
  with s o that show ?thesis by simp
qed

lemma transform_schema:
  assumes "transform data = Inr out"
    and "distinct (map fst (rename_columns renames (columns data)))"
  shows "index_name out = Some ''doi'' \<and> index out = index data \<and>
    map fst (columns out) = target_columns \<and>
    (\<forall>(label, cells) \<in> set (columns out).
       if label = ''conference_proceedings''
       then (label, cells) \<in> set (rename_columns renames (columns data))
       else list_all is_int cells)"
proof -
  from assms(1) obtain selected where
    s: "select_columns target_columns (rename_columns renames (columns data)) = Inr selected"
    and r: "list_all2 (remapped_by column_remaps) selected (columns out)"
    and i: "index_name out = Some ''doi''" "index out = index data"
    by (rule transform_Inr)
  from remapped_by_labels [OF r] select_columns_labels [OF s assms(2)]
  have l: "map fst (columns out) = target_columns" by simp
  have "if label = ''conference_proceedings''
       then (label, cells) \<in> set (rename_columns renames (columns data))
       else list_all is_int cells" if m: "(label, cells) \<in> set (columns out)" for label cells
  proof -
    from list_all2_right_member [OF r m] obtain c where
      c: "c \<in> set selected" "remapped_by column_remaps c (label, cells)" by blast
    show ?thesis
    proof (cases "label = ''conference_proceedings''")
      case True
      with c(2) have "c = (label, cells)"
        by (cases c) (simp add: remapped_by_def conference_proceedings_not_remapped)
      with c(1) select_columns_set [OF s] True show ?thesis by simp
    next
      case False
      from m have "label \<in> set (map fst (columns out))" by force
      with l False have "label \<in> fst ` set column_remaps"
        by (simp add: target_columns_remapped)
      then obtain f where "map_of column_remaps label = Some f"
        by (metis map_of_eq_None_iff not_None_eq)
      with c(2) have "list_all2 (\<lambda>v v'. \<exists>k. f v = Inr k \<and> v' = PInt k) (snd c) cells"
        by (simp add: remapped_by_def)
      then have "\<forall>v' \<in> set cells. is_int v'"
        by (auto dest: list_all2_right_member)
      with False show ?thesis by (simp add: list_all_iff)
    qed
  qed
  with i l show ?thesis by blast
qed

lemma series_map_succeeds:
  "list_all (resolves f) cells \<Longrightarrow> \<exists>cells'. series_map f cells = Inr cells'"
  by (induction cells) (auto simp: resolves_def split: sum.splits)

lemma map_labelled_succeeds:
  "\<forall>c \<in> set cols. fst c = label \<longrightarrow> list_all (resolves f) (snd c) \<Longrightarrow>
   \<exists>cols'. map_labelled label f cols = Inr cols'"
proof (induction cols)
  case Nil
  then show ?case by simp
next
  case (Cons c cols)
  obtain l cells where c: "c = (l, cells)" by (cases c)
  from Cons obtain rest' where r: "map_labelled label f cols = Inr rest'" by auto
  show ?case
  proof (cases "l = label")
    case True
    with Cons.prems have "list_all (resolves f) cells" unfolding c by simp
    then obtain cells' where "series_map f cells = Inr cells'"
      using series_map_succeeds by blast
    with True r show ?thesis unfolding c by simp
  next
    case False
    with r show ?thesis unfolding c by simp
  qed
qed

lemma mapped_at_labels:
  "list_all2 (mapped_at label f) cols cols' \<Longrightarrow> map fst cols' = map fst cols"
  by (induction rule: list_all2_induct) (simp_all add: mapped_at_def)

lemma apply_remaps_succeeds:
  "distinct (map fst steps) \<Longrightarrow> fst ` set steps \<subseteq> fst ` set cols \<Longrightarrow>
   \<forall>c \<in> set cols. resolved_by steps c \<Longrightarrow> \<exists>cols'. apply_remaps steps cols = Inr cols'"
proof (induction steps arbitrary: cols)
  case Nil
  then show ?case by simp
next
  case (Cons step steps)
  obtain label f where step: "step = (label, f)" by (cases step)
  from Cons.prems(1) have d: "distinct (map fst steps)" and n: "map_of steps label = None"
    unfolding step by (auto simp: map_of_eq_None_iff)
  from Cons.prems(2) have here: "label \<in> set (map fst cols)"
    unfolding step by auto
  from Cons.prems(3) have "\<forall>c \<in> set cols. fst c = label \<longrightarrow> list_all (resolves f) (snd c)"
    unfolding step by (auto simp: resolved_by_def)
  then obtain cols1 where c1: "map_labelled label f cols = Inr cols1"
    using map_labelled_succeeds by blast
  note m = map_labelled_Inr [OF c1]
  from mapped_at_labels [OF m] Cons.prems(2) have l: "fst ` set steps \<subseteq> fst ` set cols1"
    unfolding step by (metis image_set set_subset_Cons image_mono subset_trans)
  have "resolved_by steps c1" if "c1 \<in> set cols1" for c1
  proof -
    from list_all2_right_member [OF m that] obtain c where
      c: "c \<in> set cols" "mapped_at label f c c1" by blast
    show ?thesis
    proof (cases "fst c = label")
      case True
      with c(2) n show ?thesis by (simp add: resolved_by_def mapped_at_def)
    next
      case False
      from Cons.prems(3) c(1) have "resolved_by (step # steps) c" by blast
      with False c(2) show ?thesis
        unfolding step by (auto simp: resolved_by_def mapped_at_def split: option.splits)
    qed
  qed
  with Cons.IH [OF d l] obtain cols' where "apply_remaps steps cols1 = Inr cols'" by blast
  with c1 here show ?case unfolding step by (simp add: remap_column_def)
qed

lemma transform_succeeds:
  assumes "valid_input data"
  shows "\<exists>out. transform data = Inr out"
proof -
  let ?cols = "rename_columns renames (columns data)"
  from assms have p: "\<forall>label \<in> set target_columns. label \<in> set (map fst ?cols)"
    and r: "\<forall>c \<in> set ?cols. resolved_by column_remaps c"
    by (auto simp: valid_input_def Let_def list_all_iff resolved_by_def)
  from p have "filter (\<lambda>label. label \<notin> set (map fst ?cols)) target_columns = []"
    by (simp add: filter_empty_conv)
  then obtain selected where s: "select_columns target_columns ?cols = Inr selected"
    by (simp add: select_columns_def)
  note ss = select_columns_set [OF s]
  have "fst ` set column_remaps \<subseteq> fst ` set selected"
  proof
    fix label assume "label \<in> fst ` set column_remaps"
    then have t: "label \<in> set target_columns" by (simp add: target_columns_remapped)
    with p obtain c where "c \<in> set ?cols" "fst c = label" by auto
    with t ss show "label \<in> fst ` set selected" by force
  qed
  moreover from r ss have "\<forall>c \<in> set selected. resolved_by column_remaps c" by simp
  ultimately obtain remapped where "apply_remaps column_remaps selected = Inr remapped"
    using apply_remaps_succeeds [OF distinct_column_remaps] by blast
  with s show ?thesis by (simp add: transform_def)
qed

section \<open>The example frames\<close>

lemma renamed_example:
  "rename_columns renames (columns example_frame) =
    [(''Duration'', [PInt 12, PInt 40]),
     (''conference_proceedings'', [PStr ''EDM'', PStr ''LAK'']),
     (''paper_type'', [PStr ''Research Article'', PStr ''Poster'']),
     (''acm_misclassified'', [PStr ''Yes'', PStr ''No'']),
     (''open_methodology'', [PStr ''Public Access'', PStr ''No'']),
     (''open_data'', [PStr ''Yes'', PFloat NaN]),
     (''data_documentation'', [PStr ''Partial'', PFloat NaN]),
     (''open_materials'', [PStr ''On Request'', PStr ''No'']),
     (''materials_documentation'', [PStr ''Full'', PFloat NaN]),
     (''readme'', [PStr ''Yes'', PFloat NaN]),
     (''permissible_software_license'', [PStr ''No'', PFloat NaN]),
     (''preregistration'', [PStr ''No'', PStr ''No'']),
     (''reproducible'', [PFloat NaN, PStr ''No'']),
     (''reference_degradation'', [PStr ''Open Data,Preregistration'', PFloat NaN])]"
  by (simp add: example_frame_def rename_columns_def renames_def)

lemma transform_example: "transform example_frame = Inr example_output"
  unfolding transform_def renamed_example
  by (simp add: select_columns_def target_columns_def column_remaps_def remap_column_def
      remap_to_int_def remap_yes_no_def yes_no_def paper_type_codes_def open_methodology_codes_def
      open_data_codes_def data_documentation_codes_def open_materials_codes_def
      materials_documentation_codes_def remap_reference_degradation_def remap_list_def
      str_split_def index_of_def reference_degradation_bits_def example_output_def example_frame_def)

lemma distinct_renamed_example:
  "distinct (map fst (rename_columns renames (columns example_frame)))"
  unfolding renamed_example by simp

lemma renamed_unknown:
  "rename_columns renames (columns example_unknown) =
    [(''Duration'', [PInt 12, PInt 40]),
     (''conference_proceedings'', [PStr ''EDM'', PStr ''LAK'']),
     (''paper_type'', [PStr ''Book'', PStr ''Poster'']),
     (''acm_misclassified'', [PStr ''Yes'', PStr ''No'']),
     (''open_methodology'', [PStr ''Public Access'', PStr ''No'']),
     (''open_data'', [PStr ''Yes'', PFloat NaN]),
     (''data_documentation'', [PStr ''Partial'', PFloat NaN]),
     (''open_materials'', [PStr ''On Request'', PStr ''No'']),
     (''materials_documentation'', [PStr ''Full'', PFloat NaN]),
     (''readme'', [PStr ''Yes'', PFloat NaN]),
     (''permissible_software_license'', [PStr ''No'', PFloat NaN]),
     (''preregistration'', [PStr ''No'', PStr ''No'']),
     (''reproducible'', [PFloat NaN, PStr ''No'']),
     (''reference_degradation'', [PStr ''Open Data,Preregistration'', PFloat NaN])]"
  by (simp add: example_unknown_def example_frame_def rename_columns_def renames_def)

lemma transform_unknown: "transform example_unknown = Inl (KeyError (PStr ''Book''))"
  unfolding transform_def renamed_unknown
  by (simp add: select_columns_def target_columns_def column_remaps_def remap_column_def
      remap_to_int_def paper_type_codes_def)

lemma valid_example: "valid_input example_frame"
  unfolding valid_input_def renamed_example
  by (simp add: target_columns_def column_remaps_def
      remap_to_int_def remap_yes_no_def yes_no_def paper_type_codes_def open_methodology_codes_def
      open_data_codes_def data_documentation_codes_def open_materials_codes_def
      materials_documentation_codes_def remap_reference_degradation_def remap_list_def
      str_split_def index_of_def reference_degradation_bits_def resolves_def)

section \<open>The index of a token\<close>

lemma index_of_Mapping: "index_of (Mapping d) tok = Inr n \<longleftrightarrow> d tok = Some n"
  by (simp add: index_of_def split: option.splits)

lemma index_of_Callable: "index_of (Callable f) tok = f (PStr tok)"
  by (simp add: index_of_def)

section \<open>The claims\<close>

text \<open>
  C1. A value of a rule's vocabulary is remapped to the integer the vocabulary gives it:
  for every dict and every key of it, and for each remapped column of the script with the
  vocabulary the specification lists for it (paper_type: Research Article 1, Short paper
  2, Poster 3, and so on; for reference_degradation the integer with the listed bit set).
\<close>

theorem remap_vocabulary:
  "(d v = Some k \<longrightarrow> remap_to_int (PStr v) (Mapping d) nan = Inr k) \<and>
   (map_of spec_vocabulary column = Some vocabulary \<and> vocabulary v = Some k \<longrightarrow>
      (\<exists>f. map_of column_remaps column = Some f \<and> f (PStr v) = Inr k))"
proof (intro conjI impI)
  assume "d v = Some k"
  then show "remap_to_int (PStr v) (Mapping d) nan = Inr k"
    by (simp add: remap_to_int_def)
next
  assume a: "map_of spec_vocabulary column = Some vocabulary \<and> vocabulary v = Some k"
  then have "map_of spec_vocabulary column \<noteq> None"
    by simp
  then have "column \<in> {''paper_type'', ''acm_misclassified'', ''open_methodology'', ''open_data'',
      ''data_documentation'', ''open_materials'', ''materials_documentation'', ''readme'',
      ''permissible_software_license'', ''preregistration'', ''reproducible'',
      ''reference_degradation''}"
    unfolding map_of_eq_None_iff by (simp add: spec_vocabulary_def)
  then show "\<exists>f. map_of column_remaps column = Some f \<and> f (PStr v) = Inr k"
  proof (elim insertE emptyE)
    assume "column = ''paper_type''"
    with a show ?thesis
      by (simp add: spec_vocabulary_def column_remaps_def remap_to_int_def paper_type_codes_def
          split: if_splits)
  next
    assume "column = ''acm_misclassified''"
    with a show ?thesis
      by (simp add: spec_vocabulary_def column_remaps_def remap_to_int_def remap_yes_no_def yes_no_def
          split: if_splits)
  next
    assume "column = ''open_methodology''"
    with a show ?thesis
      by (simp add: spec_vocabulary_def column_remaps_def remap_to_int_def open_methodology_codes_def
          split: if_splits)
  next
    assume "column = ''open_data''"
    with a show ?thesis
      by (simp add: spec_vocabulary_def column_remaps_def remap_to_int_def open_data_codes_def
          split: if_splits)
  next
    assume "column = ''data_documentation''"
    with a show ?thesis
      by (simp add: spec_vocabulary_def column_remaps_def remap_to_int_def data_documentation_codes_def
          split: if_splits)
  next
    assume "column = ''open_materials''"
    with a show ?thesis
      by (simp add: spec_vocabulary_def column_remaps_def remap_to_int_def open_materials_codes_def
          split: if_splits)
  next
    assume "column = ''materials_documentation''"
    with a show ?thesis
      by (simp add: spec_vocabulary_def column_remaps_def remap_to_int_def
          materials_documentation_codes_def split: if_splits)
  next
    assume "column = ''readme''"
    with a show ?thesis
      by (simp add: spec_vocabulary_def column_remaps_def remap_to_int_def remap_yes_no_def yes_no_def
          split: if_splits)
  next
    assume "column = ''permissible_software_license''"
    with a show ?thesis
      by (simp add: spec_vocabulary_def column_remaps_def remap_to_int_def remap_yes_no_def yes_no_def
          split: if_splits)
  next
    assume "column = ''preregistration''"
    with a show ?thesis
      by (simp add: spec_vocabulary_def column_remaps_def remap_to_int_def remap_yes_no_def yes_no_def
          split: if_splits)
  next
    assume "column = ''reproducible''"
    with a show ?thesis
      by (simp add: spec_vocabulary_def column_remaps_def remap_to_int_def remap_yes_no_def yes_no_def
          split: if_splits)
  next
    assume c: "column = ''reference_degradation''"
    with a have "vocabulary =
        [''Open Methodology'' \<mapsto> 1, ''Open Data'' \<mapsto> 2, ''Open Materials'' \<mapsto> 4,
         ''Preregistration'' \<mapsto> 8]"
      by (simp add: spec_vocabulary_def)
    with a have "(v, k) \<in> {(''Open Methodology'', 1), (''Open Data'', 2), (''Open Materials'', 4),
        (''Preregistration'', 8)}"
      by (simp split: if_splits)
    then show ?thesis
      unfolding c
      by (elim insertE emptyE)
        (simp_all add: column_remaps_def remap_to_int_def remap_reference_degradation_def
          remap_list_def str_split_def index_of_def reference_degradation_bits_def)
  qed
qed

theorem remap_vocabulary_witness:
  "map_of spec_vocabulary ''paper_type'' =
     Some [''Research Article'' \<mapsto> 1, ''Short paper'' \<mapsto> 2, ''Poster'' \<mapsto> 3] \<and>
   remap_to_int (PStr ''Short paper'') (Mapping paper_type_codes) (- 1) = Inr 2 \<and>
   (\<exists>f. map_of column_remaps ''paper_type'' = Some f \<and> f (PStr ''Poster'') = Inr 3)"
proof -
  have v: "map_of spec_vocabulary ''paper_type'' =
     Some [''Research Article'' \<mapsto> 1, ''Short paper'' \<mapsto> 2, ''Poster'' \<mapsto> 3]"
    by (simp add: spec_vocabulary_def)
  have p: "[''Research Article'' \<mapsto> 1, ''Short paper'' \<mapsto> 2, ''Poster'' \<mapsto> (3::int)] ''Poster'' = Some 3"
    by simp
  have s: "paper_type_codes ''Short paper'' = Some 2"
    by (simp add: paper_type_codes_def)
  from remap_vocabulary [of paper_type_codes "''Short paper''" 2 "- 1"] s
  have 1: "remap_to_int (PStr ''Short paper'') (Mapping paper_type_codes) (- 1) = Inr 2"
    by simp
  from remap_vocabulary [where column = "''paper_type''" and v = "''Poster''" and k = 3] v p
  have 2: "\<exists>f. map_of column_remaps ''paper_type'' = Some f \<and> f (PStr ''Poster'') = Inr 3"
    by blast
  from v 1 2 show ?thesis by simp
qed

text \<open>
  C2. A missing value (a float that is NaN) is remapped to the sentinel, whatever the
  mapper is: a callable that raises on every argument changes nothing, so the mapper is
  not consulted. In the script each of the eleven lookup and yes/no columns has a remap,
  and it gives \<open>-1\<close> for a missing cell; reference_degradation has one, and it gives 0.
\<close>

theorem remap_missing:
  assumes "is_missing value"
  shows "remap_to_int value mapper nan = Inr nan \<and>
    (\<forall>column \<in> set [''paper_type'', ''acm_misclassified'', ''open_methodology'', ''open_data'',
        ''data_documentation'', ''open_materials'', ''materials_documentation'', ''readme'',
        ''permissible_software_license'', ''preregistration'', ''reproducible''].
       \<exists>f. map_of column_remaps column = Some f \<and> f value = Inr (- 1)) \<and>
    (\<exists>f. map_of column_remaps ''reference_degradation'' = Some f \<and> f value = Inr 0) \<and>
    (\<forall>(column, f) \<in> set column_remaps.
       f value = Inr (if column = ''reference_degradation'' then 0 else - 1))"
  using assms
  by (simp add: remap_to_int_def column_remaps_def remap_yes_no_def
      remap_reference_degradation_def)

theorem remap_missing_witness:
  "is_missing (PFloat NaN) \<and>
   remap_to_int (PFloat NaN) (Callable (\<lambda>v. Inl AttributeError)) 7 = Inr 7 \<and>
   (\<exists>f. map_of column_remaps ''paper_type'' = Some f \<and> f (PFloat NaN) = Inr (- 1)) \<and>
   (\<exists>f. map_of column_remaps ''readme'' = Some f \<and> f (PFloat NaN) = Inr (- 1)) \<and>
   (\<exists>f. map_of column_remaps ''reference_degradation'' = Some f \<and> f (PFloat NaN) = Inr 0) \<and>
   remap_yes_no (PFloat NaN) = Inr (- 1) \<and>
   remap_reference_degradation (PFloat NaN) = Inr 0"
proof -
  have m: "is_missing (PFloat NaN)" by simp
  have y: "map_of column_remaps ''readme'' = Some remap_yes_no"
    and r: "map_of column_remaps ''reference_degradation'' = Some remap_reference_degradation"
    by (simp_all add: column_remaps_def)
  note t = remap_missing [OF m, of "Callable (\<lambda>v. Inl AttributeError)" 7]
  from t have 1: "remap_to_int (PFloat NaN) (Callable (\<lambda>v. Inl AttributeError)) 7 = Inr 7"
    by blast
  from t have 2: "\<exists>f. map_of column_remaps ''paper_type'' = Some f \<and> f (PFloat NaN) = Inr (- 1)"
    by simp
  from t have 3: "\<exists>f. map_of column_remaps ''readme'' = Some f \<and> f (PFloat NaN) = Inr (- 1)"
    by simp
  from t have 4: "\<exists>f. map_of column_remaps ''reference_degradation'' = Some f \<and> f (PFloat NaN) = Inr 0"
    by blast
  from 3 y have 5: "remap_yes_no (PFloat NaN) = Inr (- 1)" by simp
  from 4 r have 6: "remap_reference_degradation (PFloat NaN) = Inr 0" by simp
  from m 1 2 3 4 5 6 show ?thesis by blast
qed

text \<open>
  C3. \<open>remap_list\<close> splits the string at the commas (there is at least one token, the
  tokens hold no comma and, joined by commas, give the string back), resolves every token
  by the index rule (the entry of the dict for the token, or what the callable returns for
  it), and returns the integer whose set bits are the indices found: the bitwise OR of
  \<open>1 << index\<close>. With the indices of reference_degradation,
  \<open>"Open Data,Preregistration"\<close> gives 10.
\<close>

theorem remap_list_bit_field:
  "remap_list ''Open Data,Preregistration'' (Mapping reference_degradation_bits) = Inr 10 \<and>
   str_split values CHR '','' \<noteq> [] \<and>
   str_join CHR '','' (str_split values CHR '','') = values \<and>
   (\<forall>tok \<in> set (str_split values CHR '',''). CHR '','' \<notin> set tok) \<and>
   ((\<forall>tok \<in> set (str_split values CHR '',''). \<exists>n\<ge>0. d tok = Some n) \<longrightarrow>
      (\<exists>k. remap_list values (Mapping d) = Inr k \<and>
         (\<forall>j. bit k j \<longleftrightarrow> (\<exists>tok \<in> set (str_split values CHR '',''). d tok = Some (int j))))) \<and>
   ((\<forall>tok \<in> set (str_split values CHR '',''). \<exists>n\<ge>0. f (PStr tok) = Inr n) \<longrightarrow>
      (\<exists>k. remap_list values (Callable f) = Inr k \<and>
         (\<forall>j. bit k j \<longleftrightarrow>
            (\<exists>tok \<in> set (str_split values CHR '',''). f (PStr tok) = Inr (int j)))))"
proof (intro conjI impI)
  show "remap_list ''Open Data,Preregistration'' (Mapping reference_degradation_bits) = Inr 10"
    by (simp add: remap_list_def str_split_def index_of_def reference_degradation_bits_def)
  show "str_split values CHR '','' \<noteq> []"
    by (simp add: str_split_def split_from_nonempty)
  show "str_join CHR '','' (str_split values CHR '','') = values"
    by (simp add: str_split_def str_join_split_from)
  show "\<forall>tok \<in> set (str_split values CHR '',''). CHR '','' \<notin> set tok"
    unfolding str_split_def by (rule split_from_no_sep) simp
next
  assume "\<forall>tok \<in> set (str_split values CHR '',''). \<exists>n\<ge>0. d tok = Some n"
  then have "\<forall>tok \<in> set (str_split values CHR '',''). \<exists>n\<ge>0. index_of (Mapping d) tok = Inr n"
    by (simp add: index_of_Mapping)
  from remap_loop_bits [OF this, of 0]
  show "\<exists>k. remap_list values (Mapping d) = Inr k \<and>
         (\<forall>j. bit k j \<longleftrightarrow> (\<exists>tok \<in> set (str_split values CHR '',''). d tok = Some (int j)))"
    by (simp add: remap_list_def index_of_Mapping)
next
  assume "\<forall>tok \<in> set (str_split values CHR '',''). \<exists>n\<ge>0. f (PStr tok) = Inr n"
  then have "\<forall>tok \<in> set (str_split values CHR '',''). \<exists>n\<ge>0. index_of (Callable f) tok = Inr n"
    by (simp add: index_of_Callable)
  from remap_loop_bits [OF this, of 0]
  show "\<exists>k. remap_list values (Callable f) = Inr k \<and>
         (\<forall>j. bit k j \<longleftrightarrow>
            (\<exists>tok \<in> set (str_split values CHR '',''). f (PStr tok) = Inr (int j)))"
    by (simp add: remap_list_def index_of_Callable)
qed

theorem remap_list_bit_field_witness:
  "str_split ''Open Materials,Open Data'' CHR '','' = [''Open Materials'', ''Open Data''] \<and>
   reference_degradation_bits ''Open Materials'' = Some 2 \<and>
   reference_degradation_bits ''Open Data'' = Some 1 \<and>
   (\<exists>k. remap_list ''Open Materials,Open Data'' (Mapping reference_degradation_bits) = Inr k \<and>
      \<not> bit k 0 \<and> bit k 1 \<and> bit k 2 \<and> \<not> bit k 3) \<and>
   str_split ''x'' CHR '','' = [''x''] \<and>
   (\<exists>k. remap_list ''x'' (Callable (\<lambda>v. Inr 3)) = Inr k \<and>
      \<not> bit k 0 \<and> \<not> bit k 1 \<and> \<not> bit k 2 \<and> bit k 3)"
proof -
  have s: "str_split ''Open Materials,Open Data'' CHR '','' = [''Open Materials'', ''Open Data'']"
    by (simp add: str_split_def)
  have i: "reference_degradation_bits ''Open Materials'' = Some 2"
    "reference_degradation_bits ''Open Data'' = Some 1"
    by (simp_all add: reference_degradation_bits_def)
  have h: "\<forall>tok \<in> set (str_split ''Open Materials,Open Data'' CHR '','').
      \<exists>n\<ge>0. reference_degradation_bits tok = Some n"
    unfolding s using i by simp
  from remap_list_bit_field [of "''Open Materials,Open Data''" reference_degradation_bits] h
  obtain k where
    k: "remap_list ''Open Materials,Open Data'' (Mapping reference_degradation_bits) = Inr k"
    and b: "\<And>j. bit k j \<longleftrightarrow>
      (\<exists>tok \<in> set (str_split ''Open Materials,Open Data'' CHR '','').
         reference_degradation_bits tok = Some (int j))"
    by blast
  have "\<not> bit k 0" "bit k 1" "bit k 2" "\<not> bit k 3"
    unfolding b s using i by simp_all
  with k have 1: "\<exists>k. remap_list ''Open Materials,Open Data'' (Mapping reference_degradation_bits) = Inr k \<and>
      \<not> bit k 0 \<and> bit k 1 \<and> bit k 2 \<and> \<not> bit k 3"
    by blast
  have x: "str_split ''x'' CHR '','' = [''x'']"
    by (simp add: str_split_def)
  have hc: "\<forall>tok \<in> set (str_split ''x'' CHR '','').
      \<exists>n\<ge>0. (\<lambda>v. Inr 3 :: error + int) (PStr tok) = Inr n"
    by simp
  note t = remap_list_bit_field [of "''x''" reference_degradation_bits "\<lambda>v. Inr 3"]
  from t have "(\<forall>tok \<in> set (str_split ''x'' CHR '',''). \<exists>n\<ge>0. (Inr 3 :: error + int) = Inr n) \<longrightarrow>
      (\<exists>k. remap_list ''x'' (Callable (\<lambda>v. Inr 3)) = Inr k \<and>
         (\<forall>j. bit k j \<longleftrightarrow>
            (\<exists>tok \<in> set (str_split ''x'' CHR '',''). (Inr 3 :: error + int) = Inr (int j))))"
    by (elim conjE)
  with hc obtain k' where
    k': "remap_list ''x'' (Callable (\<lambda>v. Inr 3)) = Inr k'"
    and b': "\<And>j. bit k' j \<longleftrightarrow>
      (\<exists>tok \<in> set (str_split ''x'' CHR '',''). (Inr 3 :: error + int) = Inr (int j))"
    by blast
  have "\<not> bit k' 0" "\<not> bit k' 1" "\<not> bit k' 2" "bit k' 3"
    unfolding b' x by simp_all
  with k' have 2: "\<exists>k. remap_list ''x'' (Callable (\<lambda>v. Inr 3)) = Inr k \<and>
      \<not> bit k 0 \<and> \<not> bit k 1 \<and> \<not> bit k 2 \<and> bit k 3"
    by blast
  from s i 1 x 2 show ?thesis by blast
qed

text \<open>
  C4. A value that is not missing and is not a key of the dict makes \<open>remap_to_int\<close>
  raise \<open>KeyError\<close> for that value; no integer is returned.
\<close>

theorem remap_unknown:
  assumes "\<not> is_missing value" and "\<forall>s. value = PStr s \<longrightarrow> d s = None"
  shows "remap_to_int value (Mapping d) nan = Inl (KeyError value)"
  using assms by (cases "value") (simp_all add: remap_to_int_def)

theorem remap_unknown_witness:
  "\<not> is_missing (PStr ''Maybe'') \<and> yes_no ''Maybe'' = None \<and>
   remap_to_int (PStr ''Maybe'') (Mapping yes_no) (- 1) = Inl (KeyError (PStr ''Maybe''))"
proof -
  have m: "\<not> is_missing (PStr ''Maybe'')" by simp
  have n: "yes_no ''Maybe'' = None" by (simp add: yes_no_def)
  then have "\<forall>s. PStr ''Maybe'' = PStr s \<longrightarrow> yes_no s = None" by simp
  from remap_unknown [OF m this, of "- 1"] m n show ?thesis by simp
qed

text \<open>
  C5. The result of \<open>remap_list\<close> depends only on the set of tokens: two strings whose
  tokens form the same set, all of them resolved by the index mapper, give the same
  result. So a repeated token changes nothing, and neither does the order: a non-empty
  list of comma-free tokens of the vocabulary, joined by commas, gives the same result as
  any list with the same elements.
\<close>

theorem remap_list_same_tokens:
  "(set (str_split s CHR '','') = set (str_split s' CHR '','') \<and>
    (\<forall>tok \<in> set (str_split s CHR '',''). \<exists>n. index_of m tok = Inr n) \<longrightarrow>
      remap_list s m = remap_list s' m) \<and>
   (toks \<noteq> [] \<and> toks' \<noteq> [] \<and> set toks = set toks' \<and>
    (\<forall>tok \<in> set toks. CHR '','' \<notin> set tok \<and> (\<exists>n. index_of m tok = Inr n)) \<longrightarrow>
      remap_list (str_join CHR '','' toks) m = remap_list (str_join CHR '','' toks') m)"
proof (intro conjI impI)
  assume "set (str_split s CHR '','') = set (str_split s' CHR '','') \<and>
    (\<forall>tok \<in> set (str_split s CHR '',''). \<exists>n. index_of m tok = Inr n)"
  then show "remap_list s m = remap_list s' m"
    using remap_list_tokens_set by blast
next
  assume a: "toks \<noteq> [] \<and> toks' \<noteq> [] \<and> set toks = set toks' \<and>
    (\<forall>tok \<in> set toks. CHR '','' \<notin> set tok \<and> (\<exists>n. index_of m tok = Inr n))"
  then have 1: "str_split (str_join CHR '','' toks) CHR '','' = toks"
    by (intro str_split_join) auto
  from a have 2: "str_split (str_join CHR '','' toks') CHR '','' = toks'"
    by (intro str_split_join) auto
  show "remap_list (str_join CHR '','' toks) m = remap_list (str_join CHR '','' toks') m"
    by (rule remap_list_tokens_set) (use a in \<open>simp_all add: 1 2\<close>)
qed

theorem remap_list_same_tokens_witness:
  "set (str_split ''Open Data,Open Data'' CHR '','') = set (str_split ''Open Data'' CHR '','') \<and>
   index_of (Mapping reference_degradation_bits) ''Open Data'' = Inr 1 \<and>
   index_of (Mapping reference_degradation_bits) ''Preregistration'' = Inr 3 \<and>
   remap_list ''Open Data,Open Data'' (Mapping reference_degradation_bits) =
     remap_list ''Open Data'' (Mapping reference_degradation_bits) \<and>
   remap_list ''Open Data,Preregistration'' (Mapping reference_degradation_bits) =
     remap_list ''Preregistration,Open Data'' (Mapping reference_degradation_bits)"
proof -
  let ?m = "Mapping reference_degradation_bits"
  have s: "set (str_split ''Open Data,Open Data'' CHR '','') = set (str_split ''Open Data'' CHR '','')"
    by (simp add: str_split_def)
  have i: "index_of ?m ''Open Data'' = Inr 1" "index_of ?m ''Preregistration'' = Inr 3"
    by (simp_all add: index_of_def reference_degradation_bits_def)
  have "str_split ''Open Data,Open Data'' CHR '','' = [''Open Data'', ''Open Data'']"
    by (simp add: str_split_def)
  with i have r: "\<forall>tok \<in> set (str_split ''Open Data,Open Data'' CHR '','').
      \<exists>n. index_of ?m tok = Inr n"
    by simp
  from remap_list_same_tokens [of "''Open Data,Open Data''" "''Open Data''" ?m] s r
  have 1: "remap_list ''Open Data,Open Data'' ?m = remap_list ''Open Data'' ?m"
    by blast
  have p: "[''Open Data'', ''Preregistration''] \<noteq> [] \<and> [''Preregistration'', ''Open Data''] \<noteq> [] \<and>
     set [''Open Data'', ''Preregistration''] = set [''Preregistration'', ''Open Data''] \<and>
     (\<forall>tok \<in> set [''Open Data'', ''Preregistration''].
        CHR '','' \<notin> set tok \<and> (\<exists>n. index_of ?m tok = Inr n))"
    using i by auto
  from remap_list_same_tokens [where toks = "[''Open Data'', ''Preregistration'']"
      and toks' = "[''Preregistration'', ''Open Data'']" and m = ?m] p
  have "remap_list (str_join CHR '','' [''Open Data'', ''Preregistration'']) ?m =
      remap_list (str_join CHR '','' [''Preregistration'', ''Open Data'']) ?m"
    by blast
  then have 2: "remap_list ''Open Data,Preregistration'' ?m = remap_list ''Preregistration,Open Data'' ?m"
    by simp
  from s i 1 2 show ?thesis by blast
qed

text \<open>
  C6. The empty string splits into one empty token. \<open>remap_list\<close> then raises what the
  lookup of the empty token raises: \<open>KeyError\<close> when the index mapper is a dict without
  the key \<open>""\<close>. An empty segment anywhere in the string makes such a dict fail, and the
  reference_degradation remap of an empty string cell raises \<open>KeyError\<close>: it is not
  taken as a missing value.
\<close>

theorem remap_list_empty_string:
  "str_split [] CHR '','' = [[]] \<and>
   (d [] = None \<longrightarrow> remap_list [] (Mapping d) = Inl (KeyError (PStr []))) \<and>
   (index_of index_mapper [] = Inl e \<longrightarrow> remap_list [] index_mapper = Inl e) \<and>
   ([] \<in> set (str_split values CHR '','') \<and> d [] = None \<longrightarrow>
      (\<exists>e. remap_list values (Mapping d) = Inl e)) \<and>
   remap_reference_degradation (PStr []) = Inl (KeyError (PStr []))"
proof (intro conjI impI)
  show "str_split [] CHR '','' = [[]]"
    by (simp add: str_split_def)
  show "remap_list [] (Mapping d) = Inl (KeyError (PStr []))" if "d [] = None"
    using that by (simp add: remap_list_def str_split_def index_of_def)
  show "remap_list [] index_mapper = Inl e" if "index_of index_mapper [] = Inl e"
    using that by (simp add: remap_list_def str_split_def)
  show "remap_reference_degradation (PStr []) = Inl (KeyError (PStr []))"
    by (simp add: remap_reference_degradation_def remap_to_int_def remap_list_def str_split_def
        index_of_def reference_degradation_bits_def)
next
  assume a: "[] \<in> set (str_split values CHR '','') \<and> d [] = None"
  show "\<exists>e. remap_list values (Mapping d) = Inl e"
  proof (cases "remap_list values (Mapping d)")
    case (Inl e)
    then show ?thesis by blast
  next
    case (Inr k)
    then have "\<forall>tok \<in> set (str_split values CHR '',''). \<exists>n\<ge>0. index_of (Mapping d) tok = Inr n"
      unfolding remap_list_def by (rule remap_loop_resolves)
    with a obtain n where "index_of (Mapping d) [] = Inr n" by blast
    with a show ?thesis by (simp add: index_of_def)
  qed
qed

theorem remap_list_empty_string_witness:
  "reference_degradation_bits [] = None \<and>
   [] \<in> set (str_split ''Open Data,'' CHR '','') \<and>
   remap_list [] (Mapping reference_degradation_bits) = Inl (KeyError (PStr [])) \<and>
   (\<exists>e. remap_list ''Open Data,'' (Mapping reference_degradation_bits) = Inl e)"
proof -
  have n: "reference_degradation_bits [] = None"
    by (simp add: reference_degradation_bits_def)
  have m: "[] \<in> set (str_split ''Open Data,'' CHR '','')"
    by (simp add: str_split_def)
  note t = remap_list_empty_string [of reference_degradation_bits _ _ "''Open Data,''"]
  from t n have "remap_list [] (Mapping reference_degradation_bits) = Inl (KeyError (PStr []))"
    by blast
  moreover from t n m have "\<exists>e. remap_list ''Open Data,'' (Mapping reference_degradation_bits) = Inl e"
    by blast
  ultimately show ?thesis using n m by blast
qed

text \<open>
  C10. With the indices of reference_degradation, an integer that \<open>remap_list\<close> returns
  lies between 1 and 15. So the reference_degradation remap of a cell is 0 exactly when
  the cell is missing.
\<close>

theorem reference_degradation_range:
  "(remap_list values (Mapping reference_degradation_bits) = Inr k \<longrightarrow> 1 \<le> k \<and> k \<le> 15) \<and>
   (remap_reference_degradation value = Inr 0 \<longleftrightarrow> is_missing value)"
proof (intro conjI impI)
  assume "remap_list values (Mapping reference_degradation_bits) = Inr k"
  then show "1 \<le> k" and "k \<le> 15"
    using remap_list_range by blast+
next
  show "remap_reference_degradation value = Inr 0 \<longleftrightarrow> is_missing value"
  proof (cases "value")
    case (PStr s)
    have "remap_list s (Mapping reference_degradation_bits) \<noteq> Inr 0"
      using remap_list_range [of s 0] by auto
    with PStr show ?thesis
      by (simp add: remap_reference_degradation_def remap_to_int_def)
  next
    case (PFloat f)
    then show ?thesis
      by (simp add: remap_reference_degradation_def remap_to_int_def)
  next
    case (PInt n)
    then show ?thesis
      by (simp add: remap_reference_degradation_def remap_to_int_def)
  qed
qed

theorem reference_degradation_range_witness:
  "remap_list ''Open Data,Preregistration'' (Mapping reference_degradation_bits) = Inr 10 \<and>
   (1::int) \<le> 10 \<and> (10::int) \<le> 15 \<and>
   remap_reference_degradation (PFloat NaN) = Inr 0 \<and> is_missing (PFloat NaN)"
proof -
  have e: "remap_list ''Open Data,Preregistration'' (Mapping reference_degradation_bits) = Inr 10"
    by (simp add: remap_list_def str_split_def index_of_def reference_degradation_bits_def)
  have m: "is_missing (PFloat NaN)" by simp
  from reference_degradation_range [of "''Open Data,Preregistration''" 10 "PFloat NaN"] e m
  show ?thesis by simp
qed

text \<open>
  C7, as the specification states it, fails: the script renames the column
  \<open>Conference Proceedings\<close> and never remaps it, so its cells are written as they were
  read. The example frame is a valid input, and its output holds the strings \<open>EDM\<close> and
  \<open>LAK\<close>.
\<close>

theorem transform_output_counterexample:
  "valid_input example_frame \<and>
   transform example_frame = Inr example_output \<and>
   \<not> written_as_integers example_output"
  using valid_example transform_example
  by (simp add: written_as_integers_def example_output_def)

text \<open>
  C7, amended. For every valid input table the script produces a table whose index is
  named \<open>doi\<close> and holds the keys of the input, followed by exactly the thirteen target
  columns in the fixed order; the cells of the twelve remapped columns are integers, and
  the column \<open>conference_proceedings\<close> is the renamed source column, unchanged.
\<close>

theorem transform_output_schema:
  assumes "valid_input data"
  shows "\<exists>out. transform data = Inr out \<and>
    index_name out = Some ''doi'' \<and> index out = index data \<and>
    map fst (columns out) = target_columns \<and>
    (\<forall>(label, cells) \<in> set (columns out).
       if label = ''conference_proceedings''
       then (label, cells) \<in> set (rename_columns renames (columns data))
       else list_all is_int cells)"
proof -
  from transform_succeeds [OF assms] obtain out where t: "transform data = Inr out" ..
  from assms have "distinct (map fst (rename_columns renames (columns data)))"
    by (simp add: valid_input_def Let_def)
  from transform_schema [OF t this] t show ?thesis by blast
qed

theorem transform_output_schema_witness:
  "valid_input example_frame \<and>
   transform example_frame = Inr example_output \<and>
   index_name example_output = Some ''doi'' \<and>
   index example_output = index example_frame \<and>
   map fst (columns example_output) = target_columns \<and>
   (''conference_proceedings'', [PStr ''EDM'', PStr ''LAK''])
     \<in> set (rename_columns renames (columns example_frame)) \<and>
   list_all is_int [PInt 10, PInt 0]"
proof -
  from transform_output_schema [OF valid_example] transform_example
  have t: "index_name example_output = Some ''doi'' \<and> index example_output = index example_frame \<and>
    map fst (columns example_output) = target_columns \<and>
    (\<forall>(label, cells) \<in> set (columns example_output).
       if label = ''conference_proceedings''
       then (label, cells) \<in> set (rename_columns renames (columns example_frame))
       else list_all is_int cells)"
    by auto
  have c: "(''conference_proceedings'', [PStr ''EDM'', PStr ''LAK'']) \<in> set (columns example_output)"
    and r: "(''reference_degradation'', [PInt 10, PInt 0]) \<in> set (columns example_output)"
    by (simp_all add: example_output_def)
  from t c have "(''conference_proceedings'', [PStr ''EDM'', PStr ''LAK''])
     \<in> set (rename_columns renames (columns example_frame))"
    by fastforce
  moreover from t r have "list_all is_int [PInt 10, PInt 0]"
    by fastforce
  ultimately show ?thesis
    using t transform_example valid_example by blast
qed

text \<open>
  C8. The run is fail-fast and writes nothing on failure. When the transformation raises,
  the run ends with that exception and the files are as they were; a single cell of a
  remapped column that its remap does not resolve is enough for that. The compiled file
  is written (and the run reaches its exit) only when the whole transformation has
  succeeded, and it then holds the transformed frame.
\<close>

theorem compile_and_export_fail_fast:
  "(transform data = Inl e \<longrightarrow> compile_and_export docs web data fs = (Raised e, fs)) \<and>
   ((label, cells) \<in> set (rename_columns renames (columns data)) \<and>
    map_of column_remaps label = Some f \<and> v \<in> set cells \<and> f v = Inl e' \<longrightarrow>
      (\<exists>e. compile_and_export docs web data fs = (Raised e, fs))) \<and>
   (fst (compile_and_export docs web data fs) = Exited n \<or>
    snd (compile_and_export docs web data fs) COMPILED_DATA_PATH \<noteq> fs COMPILED_DATA_PATH \<longrightarrow>
      (\<exists>out. transform data = Inr out \<and>
         snd (compile_and_export docs web data fs) COMPILED_DATA_PATH = Some (Csv out)))"
proof (intro conjI impI)
  assume "transform data = Inl e"
  then show "compile_and_export docs web data fs = (Raised e, fs)"
    by (simp add: compile_and_export_def)
next
  assume a: "(label, cells) \<in> set (rename_columns renames (columns data)) \<and>
    map_of column_remaps label = Some f \<and> v \<in> set cells \<and> f v = Inl e'"
  have "\<exists>e. transform data = Inl e"
  proof (cases "transform data")
    case (Inl e)
    then show ?thesis by blast
  next
    case (Inr out)
    then obtain selected where
      s: "select_columns target_columns (rename_columns renames (columns data)) = Inr selected"
      and r: "list_all2 (remapped_by column_remaps) selected (columns out)"
      by (rule transform_Inr)
    from a have "(label, f) \<in> set column_remaps" by (auto dest: map_of_SomeD)
    then have "label \<in> set target_columns"
      unfolding target_columns_remapped by force
    with a select_columns_set [OF s] have "(label, cells) \<in> set selected" by simp
    from list_all2_left_member [OF r this] obtain c' where
      "remapped_by column_remaps (label, cells) c'" by blast
    with a have "list_all2 (\<lambda>v v'. \<exists>k. f v = Inr k \<and> v' = PInt k) cells (snd c')"
      by (simp add: remapped_by_def)
    from list_all2_left_member [OF this, of v] a have "\<exists>k. f v = Inr k" by blast
    with a show ?thesis by simp
  qed
  then show "\<exists>e. compile_and_export docs web data fs = (Raised e, fs)"
    by (auto simp: compile_and_export_def)
next
  assume h: "fst (compile_and_export docs web data fs) = Exited n \<or>
    snd (compile_and_export docs web data fs) COMPILED_DATA_PATH \<noteq> fs COMPILED_DATA_PATH"
  then show "\<exists>out. transform data = Inr out \<and>
         snd (compile_and_export docs web data fs) COMPILED_DATA_PATH = Some (Csv out)"
  proof (cases "transform data")
    case (Inl e)
    with h show ?thesis by (simp add: compile_and_export_def)
  next
    case (Inr out)
    obtain r fs' where
      d: "(if docs then download_each web supplemental_documents fs else (Inr (), fs)) = (r, fs')"
      by (cases "if docs then download_each web supplemental_documents fs else (Inr (), fs)")
    then have same: "fs' COMPILED_DATA_PATH = fs COMPILED_DATA_PATH"
      by (auto split: if_splits
          dest: download_each_other [where p = COMPILED_DATA_PATH, OF _ compiled_path_not_supplemental])
    show ?thesis
    proof (cases r)
      case (Inl e)
      with h Inr d same show ?thesis by (simp add: compile_and_export_def)
    next
      case r: (Inr u)
      with Inr d show ?thesis by (simp add: compile_and_export_def)
    qed
  qed
qed

theorem compile_and_export_fail_fast_witness:
  "transform example_unknown = Inl (KeyError (PStr ''Book'')) \<and>
   compile_and_export True Map.empty example_unknown Map.empty =
     (Raised (KeyError (PStr ''Book'')), Map.empty) \<and>
   (''paper_type'', [PStr ''Book'', PStr ''Poster''])
     \<in> set (rename_columns renames (columns example_unknown)) \<and>
   map_of column_remaps ''paper_type'' =
     Some (\<lambda>value. remap_to_int value (Mapping paper_type_codes) (- 1)) \<and>
   remap_to_int (PStr ''Book'') (Mapping paper_type_codes) (- 1) = Inl (KeyError (PStr ''Book'')) \<and>
   (\<exists>e. compile_and_export False Map.empty example_unknown Map.empty = (Raised e, Map.empty)) \<and>
   fst (compile_and_export False Map.empty example_frame Map.empty) = Exited 1 \<and>
   snd (compile_and_export False Map.empty example_frame Map.empty) COMPILED_DATA_PATH =
     Some (Csv example_output)"
proof -
  have m: "(''paper_type'', [PStr ''Book'', PStr ''Poster''])
     \<in> set (rename_columns renames (columns example_unknown))"
    unfolding renamed_unknown by simp
  have f: "map_of column_remaps ''paper_type'' =
     Some (\<lambda>value. remap_to_int value (Mapping paper_type_codes) (- 1))"
    by (simp add: column_remaps_def)
  have k: "remap_to_int (PStr ''Book'') (Mapping paper_type_codes) (- 1) = Inl (KeyError (PStr ''Book''))"
    by (simp add: remap_to_int_def paper_type_codes_def)
  have x: "fst (compile_and_export False Map.empty example_frame Map.empty) = Exited 1"
    by (simp add: compile_and_export_def transform_example)
  from compile_and_export_fail_fast [of example_unknown "KeyError (PStr ''Book'')" True Map.empty Map.empty]
    transform_unknown
  have 1: "compile_and_export True Map.empty example_unknown Map.empty =
     (Raised (KeyError (PStr ''Book'')), Map.empty)"
    by blast
  from compile_and_export_fail_fast [where data = example_frame and docs = False and web = Map.empty
      and fs = Map.empty and n = 1] x
  obtain out where "transform example_frame = Inr out"
    "snd (compile_and_export False Map.empty example_frame Map.empty) COMPILED_DATA_PATH = Some (Csv out)"
    by blast
  with transform_example
  have 2: "snd (compile_and_export False Map.empty example_frame Map.empty) COMPILED_DATA_PATH =
     Some (Csv example_output)"
    by simp
  from compile_and_export_fail_fast [where data = example_unknown and label = "''paper_type''"
      and cells = "[PStr ''Book'', PStr ''Poster'']" and v = "PStr ''Book''"
      and f = "\<lambda>value. remap_to_int value (Mapping paper_type_codes) (- 1)"
      and e' = "KeyError (PStr ''Book'')" and docs = False and web = Map.empty and fs = Map.empty]
    m f k
  have 3: "\<exists>e. compile_and_export False Map.empty example_unknown Map.empty = (Raised e, Map.empty)"
    by simp
  from transform_unknown 1 m f k x 2 3 show ?thesis by blast
qed

end
